theory Spec2Isabelle
  imports Complex_Main "HOL-Library.Sublist"
begin

section \<open>Data frames\<close>

text \<open>
  The table that \<^verbatim>\<open>pd.read_csv\<close> returns: a list of column labels and a list of rows,
  each row holding one cell per column. A cell holds what pandas parsed: nothing (NaN), a
  text, a number or a truth value. Numbers are compared by their value. A column that
  \<^verbatim>\<open>read_csv\<close> types as text (dtype object) holds texts and missing cells; a column
  in which no cell is a text is typed as numbers (also when every cell is missing) or as
  truth values, unless the table has no rows. Every row of a frame has as many cells as
  the frame has columns (\<open>wf_frame\<close>).
\<close>

datatype cell = Missing | Text string | Number real | Boolean bool

record dataframe =
  columns :: "string list"
  rows :: "cell list list"

definition wf_frame :: "dataframe \<Rightarrow> bool" where
  "wf_frame d = list_all (\<lambda>r. length r = length (columns d)) (rows d)"

text \<open>The exceptions the pandas calls of the script raise.\<close>

datatype error = KeyError "string list" | ValueError string | AttributeError string

definition bind_err :: "error + 'a \<Rightarrow> ('a \<Rightarrow> error + 'b) \<Rightarrow> error + 'b" where
  "bind_err m f = (case m of Inl e \<Rightarrow> Inl e | Inr x \<Rightarrow> f x)"

text \<open>The cell of row \<open>r\<close> under the column labelled \<open>c\<close>.\<close>

definition cell_of :: "string list \<Rightarrow> cell list \<Rightarrow> string \<Rightarrow> cell" where
  "cell_of cols r c = (case map_of (zip cols r) c of Some v \<Rightarrow> v | None \<Rightarrow> Missing)"

text \<open>The cells of a row under a list of key columns.\<close>

definition row_key :: "string list \<Rightarrow> string list \<Rightarrow> cell list \<Rightarrow> cell list" where
  "row_key cols cs r = map (cell_of cols r) cs"

text \<open>\<^verbatim>\<open>df[c]\<close>: the column, or KeyError.\<close>

definition getitem :: "dataframe \<Rightarrow> string \<Rightarrow> error + cell list" where
  "getitem d c =
     (if c \<in> set (columns d) then Inr (map (\<lambda>r. cell_of (columns d) r c) (rows d))
      else Inl (KeyError [c]))"

text \<open>
  \<^verbatim>\<open>Series.str\<close> first: the accessor exists for a column of texts (with or without
  missing cells) and for a column without rows, and raises AttributeError for any other
  column: one with rows of which none holds a text.

  Then \<^verbatim>\<open>.contains(pat, na=False)\<close> for a pattern without regular-expression
  metacharacters: a case-sensitive search for the pattern as a contiguous part of the
  text; a cell that is not a text gives False.
\<close>

fun is_text :: "cell \<Rightarrow> bool" where
  "is_text (Text s) = True"
| "is_text v = False"

definition str_accessor :: "cell list \<Rightarrow> error + cell list" where
  "str_accessor col =
     (if col = [] \<or> list_ex is_text col then Inr col
      else Inl (AttributeError ''Can only use .str accessor with string values!''))"

fun starts_with :: "string \<Rightarrow> string \<Rightarrow> bool" where
  "starts_with [] s = True"
| "starts_with (p # ps) [] = False"
| "starts_with (p # ps) (c # cs) = (p = c \<and> starts_with ps cs)"

fun contains_text :: "string \<Rightarrow> string \<Rightarrow> bool" where
  "contains_text pat [] = starts_with pat []"
| "contains_text pat (c # cs) = (starts_with pat (c # cs) \<or> contains_text pat cs)"

definition cell_contains :: "string \<Rightarrow> cell \<Rightarrow> bool" where
  "cell_contains pat v = (case v of Text s \<Rightarrow> contains_text pat s | _ \<Rightarrow> False)"

definition str_contains :: "cell list \<Rightarrow> string \<Rightarrow> error + bool list" where
  "str_contains col pat = bind_err (str_accessor col) (\<lambda>texts. Inr (map (cell_contains pat) texts))"

text \<open>Selecting the rows of a frame by a boolean mask.\<close>

definition mask_rows :: "'a list \<Rightarrow> bool list \<Rightarrow> 'a list" where
  "mask_rows xs bs = map fst (filter snd (zip xs bs))"

text \<open>\<^verbatim>\<open>df.loc[mask, cs]\<close>: the masked rows, restricted to the columns \<open>cs\<close>.\<close>

definition loc :: "dataframe \<Rightarrow> bool list \<Rightarrow> string list \<Rightarrow> error + dataframe" where
  "loc d bs cs =
     (if set cs \<subseteq> set (columns d)
      then Inr \<lparr>columns = cs, rows = map (row_key (columns d) cs) (mask_rows (rows d) bs)\<rparr>
      else Inl (KeyError (filter (\<lambda>c. c \<notin> set (columns d)) cs)))"

text \<open>
  \<^verbatim>\<open>drop_duplicates(subset=..., keep='first')\<close>: a row is dropped when an earlier row
  has the same cells in the subset columns (all columns when no subset is given).
  Missing cells count as equal to each other.
\<close>

fun keep_first :: "('a \<Rightarrow> 'k) \<Rightarrow> 'k list \<Rightarrow> 'a list \<Rightarrow> 'a list" where
  "keep_first f seen [] = []"
| "keep_first f seen (x # xs) =
     (if f x \<in> set seen then keep_first f seen xs
      else x # keep_first f (f x # seen) xs)"

definition drop_duplicates :: "dataframe \<Rightarrow> string list option \<Rightarrow> error + dataframe" where
  "drop_duplicates d sub =
     (let cs = (case sub of None \<Rightarrow> columns d | Some s \<Rightarrow> s) in
      if set cs \<subseteq> set (columns d)
      then Inr (d\<lparr>rows := keep_first (row_key (columns d) cs) [] (rows d)\<rparr>)
      else Inl (KeyError (filter (\<lambda>c. c \<notin> set (columns d)) cs)))"

text \<open>
  \<^verbatim>\<open>left.merge(right, on=on, how='left', indicator=True)\<close>, for a right frame whose
  columns are the key columns (as \<open>hosts_with_ninja\<close> is): the rows of the left frame in
  their order, each once per right row with equal key cells (missing cells match each
  other) and marked \<open>both\<close>, or once and marked \<open>left_only\<close> when no right row
  matches. The mark is the cell of the added last column \<open>_merge\<close>. The merge refuses
  frames that already have a column of the indicator's names.
\<close>

definition indicator_names :: "string list" where
  "indicator_names = [''_left_indicator'', ''_right_indicator'', ''_merge'']"

definition merge_row :: "dataframe \<Rightarrow> dataframe \<Rightarrow> string list \<Rightarrow> cell list \<Rightarrow> cell list list" where
  "merge_row left right on l =
     (let ms = filter (\<lambda>r. row_key (columns right) on r = row_key (columns left) on l) (rows right) in
      if ms = [] then [l @ [Text ''left_only'']]
      else map (\<lambda>r. l @ [Text ''both'']) ms)"

definition merge_left_indicator :: "dataframe \<Rightarrow> dataframe \<Rightarrow> string list \<Rightarrow> error + dataframe" where
  "merge_left_indicator left right on =
     (if \<not> set on \<subseteq> set (columns left) then Inl (KeyError (filter (\<lambda>c. c \<notin> set (columns left)) on))
      else if \<not> set on \<subseteq> set (columns right) then Inl (KeyError (filter (\<lambda>c. c \<notin> set (columns right)) on))
      else if list_ex (\<lambda>c. c \<in> set (columns left) \<or> c \<in> set (columns right)) indicator_names
        then Inl (ValueError ''Cannot use name of an existing column for indicator column'')
      else Inr \<lparr>columns = columns left @ [''_merge''],
                rows = concat (map (merge_row left right on) (rows left))\<rparr>)"

text \<open>\<^verbatim>\<open>series == text\<close>, \<^verbatim>\<open>df[mask]\<close> and \<^verbatim>\<open>df.drop(columns=c)\<close>.\<close>

definition eq_scalar :: "cell list \<Rightarrow> string \<Rightarrow> bool list" where
  "eq_scalar col s = map (\<lambda>v. v = Text s) col"

definition getitem_mask :: "dataframe \<Rightarrow> bool list \<Rightarrow> dataframe" where
  "getitem_mask d bs = d\<lparr>rows := mask_rows (rows d) bs\<rparr>"

definition drop_cells :: "string list \<Rightarrow> string \<Rightarrow> cell list \<Rightarrow> cell list" where
  "drop_cells cols c r = map snd (filter (\<lambda>p. fst p \<noteq> c) (zip cols r))"

definition drop_columns :: "dataframe \<Rightarrow> string \<Rightarrow> error + dataframe" where
  "drop_columns d c =
     (if c \<in> set (columns d)
      then Inr \<lparr>columns = filter (\<lambda>x. x \<noteq> c) (columns d),
                rows = map (drop_cells (columns d) c) (rows d)\<rparr>
      else Inl (KeyError [c]))"

section \<open>The filter pipeline of main (steps 4a to 4c)\<close>

definition MARKER :: string where
  "MARKER = ''NinjaRMMAgent''"

definition HOST :: "string list" where
  "HOST = [''IP'', ''HostName'']"

text \<open>The local variables of main that hold tables, after step 4c.\<close>

record locals =
  df :: dataframe
  ninja_mask :: "bool list"
  hosts_with_ninja :: dataframe
  merged :: dataframe
  df_no_ninja :: dataframe
  df_no_ninja_unique :: dataframe

definition filter_steps :: "dataframe \<Rightarrow> error + locals" where
  "filter_steps d =
     bind_err (getitem d ''Name'') (\<lambda>name_col.
     bind_err (str_contains name_col MARKER) (\<lambda>msk.
     bind_err (loc d msk HOST) (\<lambda>sel.
     bind_err (drop_duplicates sel None) (\<lambda>hosts.
     bind_err (merge_left_indicator d hosts HOST) (\<lambda>mrg.
     bind_err (getitem mrg ''_merge'') (\<lambda>ind.
     bind_err (drop_columns (getitem_mask mrg (eq_scalar ind ''left_only'')) ''_merge'') (\<lambda>no_ninja.
     bind_err (drop_duplicates no_ninja (Some HOST)) (\<lambda>uniq.
     Inr \<lparr>df = d, ninja_mask = msk, hosts_with_ninja = hosts,
          merged = mrg, df_no_ninja = no_ninja, df_no_ninja_unique = uniq\<rparr>))))))))"

text \<open>The table main writes: \<open>df_no_ninja_unique\<close>.\<close>

definition filter_pipeline :: "dataframe \<Rightarrow> error + dataframe" where
  "filter_pipeline d = map_sum id df_no_ninja_unique (filter_steps d)"

text \<open>
  Names for what the steps compute, used to state their results: the (IP, HostName) key
  of a row, the test of step 4a on a row, the keys step 4a selects and the rows step 4b
  retains.
\<close>

definition host_key :: "dataframe \<Rightarrow> cell list \<Rightarrow> cell list" where
  "host_key d r = row_key (columns d) HOST r"

definition has_marker :: "dataframe \<Rightarrow> cell list \<Rightarrow> bool" where
  "has_marker d r = cell_contains MARKER (cell_of (columns d) r ''Name'')"

definition marked_keys :: "dataframe \<Rightarrow> cell list list" where
  "marked_keys d = map (host_key d) (filter (has_marker d) (rows d))"

definition ninja_frame :: "dataframe \<Rightarrow> dataframe" where
  "ninja_frame d = \<lparr>columns = HOST, rows = keep_first (row_key HOST HOST) [] (marked_keys d)\<rparr>"

definition retained :: "dataframe \<Rightarrow> cell list list" where
  "retained d = filter (\<lambda>r. host_key d r \<notin> set (marked_keys d)) (rows d)"

text \<open>
  What main needs of the table: the three columns it reads, none named as the merge
  indicator, and a Name column the \<^verbatim>\<open>.str\<close> accessor takes.
\<close>

definition required_ok :: "dataframe \<Rightarrow> bool" where
  "required_ok d \<longleftrightarrow> ''Name'' \<in> set (columns d) \<and> set HOST \<subseteq> set (columns d)
       \<and> \<not> list_ex (\<lambda>c. c \<in> set (columns d)) indicator_names"

definition name_is_text :: "dataframe \<Rightarrow> bool" where
  "name_is_text d \<longleftrightarrow>
     rows d = [] \<or> list_ex (\<lambda>r. is_text (cell_of (columns d) r ''Name'')) (rows d)"

section \<open>The pipeline on a store of tables\<close>

text \<open>
  A table of Python is an object and a variable holds a reference to it: a call that
  worked in place would change the table for every holder of the reference. Here the
  store lists the table objects and a reference is a position in the list. Steps 4a to 4c
  pass \<^verbatim>\<open>inplace=True\<close> to no call and assign into no table: each call reads its
  tables from the store and puts its result there as a new object. The steps are those of
  \<open>filter_steps\<close>, with the tables read through their references. A variable of
  Python always refers to an object that exists: the reference \<open>a\<close> of \<open>df\<close> is a
  position of the store the steps start from.
\<close>

type_synonym ref = nat

type_synonym store = "dataframe list"

definition new_table :: "store \<Rightarrow> error + dataframe \<Rightarrow> error + (ref \<times> store)" where
  "new_table st m = bind_err m (\<lambda>t. Inr (length st, st @ [t]))"

text \<open>The variables of main that refer to tables, after step 4c.\<close>

record table_vars =
  ref_df :: ref
  ref_hosts_with_ninja :: ref
  ref_merged :: ref
  ref_df_no_ninja :: ref
  ref_df_no_ninja_unique :: ref

definition store_steps :: "store \<Rightarrow> ref \<Rightarrow> error + (table_vars \<times> store)" where
  "store_steps st a =
     bind_err (getitem (st ! a) ''Name'') (\<lambda>name_col.
     bind_err (str_contains name_col MARKER) (\<lambda>msk.
     bind_err (new_table st (loc (st ! a) msk HOST)) (\<lambda>(sel, st1).
     bind_err (new_table st1 (drop_duplicates (st1 ! sel) None)) (\<lambda>(hosts, st2).
     bind_err (new_table st2 (merge_left_indicator (st2 ! a) (st2 ! hosts) HOST)) (\<lambda>(mrg, st3).
     bind_err (getitem (st3 ! mrg) ''_merge'') (\<lambda>ind.
     bind_err (new_table st3 (Inr (getitem_mask (st3 ! mrg) (eq_scalar ind ''left_only'')))) (\<lambda>(kept, st4).
     bind_err (new_table st4 (drop_columns (st4 ! kept) ''_merge'')) (\<lambda>(no_ninja, st5).
     bind_err (new_table st5 (drop_duplicates (st5 ! no_ninja) (Some HOST))) (\<lambda>(uniq, st6).
     Inr (\<lparr>ref_df = a, ref_hosts_with_ninja = hosts, ref_merged = mrg,
           ref_df_no_ninja = no_ninja, ref_df_no_ninja_unique = uniq\<rparr>, st6))))))))))"

section \<open>The specification's ExclusionSet\<close>

text \<open>
  In the words of the specification: the set of (IP, HostName) pairs of the records whose
  Name is present, a text, and contains the marker as a contiguous part, compared
  character by character. A pair is the two cells in this order.
\<close>

definition ExclusionSet :: "dataframe \<Rightarrow> cell list set" where
  "ExclusionSet d =
     {k. \<exists>r \<in> set (rows d). \<exists>s. cell_of (columns d) r ''Name'' = Text s \<and> sublist MARKER s
          \<and> k = [cell_of (columns d) r ''IP'', cell_of (columns d) r ''HostName'']}"

section \<open>The specification's deduplication\<close>


section \<open>The script: main\<close>

text \<open>
  What main meets outside itself: whether pandas is found (before and after the
  installation), whether pip succeeds, what the two dialogs return, what reading a path
  gives (the table, or the text of the exception), the user name, and whether writing
  raises.
\<close>

record env =
  pandas_found :: bool
  pip_error :: "string option"
  pandas_found_after :: bool
  open_choice :: "string option"
  read_csv :: "string \<Rightarrow> string + dataframe"
  save_choice :: "string option"
  username :: string
  to_csv :: "string \<Rightarrow> dataframe \<Rightarrow> string option"

text \<open>
  What a run leaves: the exit status, the lines printed, the exception that ended the run
  uncaught (if any), and the effect on the output file.
\<close>

datatype file_effect = NotWritten | Written string dataframe | WriteFailed string

record outcome =
  exit_status :: int
  printed :: "string list"
  uncaught :: "error option"
  effect :: file_effect

definition newline :: char where
  "newline = CHR 0x0A"

text \<open>\<open>ensure_pandas_installed\<close>: the lines printed and the status of \<open>sys.exit\<close>, if called.\<close>

definition ensure_pandas_installed :: "env \<Rightarrow> string list \<times> int option" where
  "ensure_pandas_installed e =
     (if \<not> pandas_found e then
        (case pip_error e of
           Some x \<Rightarrow>
             ([''Module 'pandas' not found. Attempting to install via pip...'',
               ''Failed to install 'pandas'. Error:'' @ [newline] @ x], Some 1)
         | None \<Rightarrow>
             if \<not> pandas_found_after e
             then ([''Module 'pandas' not found. Attempting to install via pip...'',
                    ''pandas still not found after pip install. Exiting.''], Some 1)
             else ([''Module 'pandas' not found. Attempting to install via pip...'',
                    ''Successfully installed pandas.''], None))
      else ([''Module 'pandas' is already installed.''], None))"

text \<open>
  \<open>os.path.join\<close> on Windows, for a folder that does not end in a separator and a
  relative file name.
\<close>

definition path_join :: "string \<Rightarrow> string \<Rightarrow> string" where
  "path_join folder name = folder @ [CHR 0x5C] @ name"

definition default_out_folder :: "env \<Rightarrow> string" where
  "default_out_folder e = ''C:/Users/'' @ username e @ ''/Downloads''"

definition default_out_name :: string where
  "default_out_name = ''MachinesWithoutNinja.csv''"

text \<open>The path main writes to: the one chosen, or the default when none is.\<close>

definition save_path :: "env \<Rightarrow> string" where
  "save_path e =
     (case save_choice e of
        None \<Rightarrow> path_join (default_out_folder e) default_out_name
      | Some q \<Rightarrow> if q = [] then path_join (default_out_folder e) default_out_name else q)"

definition write_out :: "env \<Rightarrow> string list \<Rightarrow> dataframe \<Rightarrow> outcome" where
  "write_out e out0 t =
     (case to_csv e (save_path e) t of
        None \<Rightarrow>
          \<lparr>exit_status = 0, printed = out0 @ [''Filtered CSV saved to: '' @ save_path e],
           uncaught = None, effect = Written (save_path e) t\<rparr>
      | Some x \<Rightarrow>
          \<lparr>exit_status = 1, printed = out0 @ [''Failed to save CSV: '' @ x],
           uncaught = None, effect = WriteFailed (save_path e)\<rparr>)"

definition filter_file :: "env \<Rightarrow> string list \<Rightarrow> string \<Rightarrow> outcome" where
  "filter_file e out0 input_csv =
     (case read_csv e input_csv of
        Inl x \<Rightarrow>
          \<lparr>exit_status = 1,
           printed = out0 @ [''Error reading CSV from '' @ input_csv @ '':'' @ [newline] @ x],
           uncaught = None, effect = NotWritten\<rparr>
      | Inr d \<Rightarrow>
          (case filter_pipeline d of
             Inl x \<Rightarrow> \<lparr>exit_status = 1, printed = out0, uncaught = Some x, effect = NotWritten\<rparr>
           | Inr t \<Rightarrow> write_out e out0 t))"

definition main :: "env \<Rightarrow> outcome" where
  "main e =
     (case ensure_pandas_installed e of
        (out0, Some code) \<Rightarrow>
          \<lparr>exit_status = code, printed = out0, uncaught = None, effect = NotWritten\<rparr>
      | (out0, None) \<Rightarrow>
          (case open_choice e of
             None \<Rightarrow>
               \<lparr>exit_status = 0, printed = out0 @ [''No file selected. Exiting.''],
                uncaught = None, effect = NotWritten\<rparr>
           | Some input_csv \<Rightarrow>
               if input_csv = []
               then \<lparr>exit_status = 0, printed = out0 @ [''No file selected. Exiting.''],
                     uncaught = None, effect = NotWritten\<rparr>
               else filter_file e out0 input_csv))"

section \<open>Tables and runs used as examples\<close>

definition scenario_table :: dataframe where
  "scenario_table =
     \<lparr>columns = [''Name'', ''IP'', ''HostName''],
      rows = [[Text ''NinjaRMMAgent.exe'', Text ''10.0.0.1'', Text ''A''],
              [Text ''chrome.exe'', Text ''10.0.0.1'', Text ''A''],
              [Text ''chrome.exe'', Text ''10.0.0.2'', Text ''B'']]\<rparr>"

text \<open>Two rows of one host without the agent.\<close>

definition two_browsers :: dataframe where
  "two_browsers =
     \<lparr>columns = [''Name'', ''IP'', ''HostName''],
      rows = [[Text ''chrome.exe'', Text ''10.0.0.2'', Text ''B''],
              [Text ''firefox.exe'', Text ''10.0.0.2'', Text ''B'']]\<rparr>"

text \<open>
  Missing cells and another spelling of the marker: an agent row with no IP, a row with
  no Name and one with a lower-case name on that same host, and two rows with neither IP
  nor HostName.
\<close>

definition missing_table :: dataframe where
  "missing_table =
     \<lparr>columns = [''Name'', ''IP'', ''HostName''],
      rows = [[Text ''NinjaRMMAgent'', Missing, Text ''A''],
              [Missing, Missing, Text ''A''],
              [Text ''ninjarmmagent'', Text ''10.0.0.3'', Text ''C''],
              [Missing, Text ''10.0.0.3'', Text ''C''],
              [Text ''a.exe'', Missing, Missing],
              [Text ''b.exe'', Missing, Missing]]\<rparr>"


definition run_env :: "(string + dataframe) \<Rightarrow> string option \<Rightarrow> string \<Rightarrow> env" where
  "run_env r q u =
     \<lparr>pandas_found = True, pip_error = None, pandas_found_after = True,
      open_choice = Some ''in.csv'', read_csv = (\<lambda>p. r), save_choice = q, username = u,
      to_csv = (\<lambda>p t. None)\<rparr>"

definition missing_locals :: locals where
  "missing_locals =
     \<lparr>df = missing_table,
      ninja_mask = [True, False, False, False, False, False],
      hosts_with_ninja = \<lparr>columns = [''IP'', ''HostName''], rows = [[Missing, Text ''A'']]\<rparr>,
      merged =
        \<lparr>columns = [''Name'', ''IP'', ''HostName'', ''_merge''],
         rows = [[Text ''NinjaRMMAgent'', Missing, Text ''A'', Text ''both''],
                 [Missing, Missing, Text ''A'', Text ''both''],
                 [Text ''ninjarmmagent'', Text ''10.0.0.3'', Text ''C'', Text ''left_only''],
                 [Missing, Text ''10.0.0.3'', Text ''C'', Text ''left_only''],
                 [Text ''a.exe'', Missing, Missing, Text ''left_only''],
                 [Text ''b.exe'', Missing, Missing, Text ''left_only'']]\<rparr>,
      df_no_ninja =
        \<lparr>columns = [''Name'', ''IP'', ''HostName''],
         rows = [[Text ''ninjarmmagent'', Text ''10.0.0.3'', Text ''C''],
                 [Missing, Text ''10.0.0.3'', Text ''C''],
                 [Text ''a.exe'', Missing, Missing],
                 [Text ''b.exe'', Missing, Missing]]\<rparr>,
      df_no_ninja_unique =
        \<lparr>columns = [''Name'', ''IP'', ''HostName''],
         rows = [[Text ''ninjarmmagent'', Text ''10.0.0.3'', Text ''C''],
                 [Text ''a.exe'', Missing, Missing]]\<rparr>\<rparr>"

definition missing_output :: dataframe where
  "missing_output =
     \<lparr>columns = [''Name'', ''IP'', ''HostName''],
      rows = [[Text ''ninjarmmagent'', Text ''10.0.0.3'', Text ''C''],
              [Text ''a.exe'', Missing, Missing]]\<rparr>"

definition two_browsers_output :: dataframe where
  "two_browsers_output =
     \<lparr>columns = [''Name'', ''IP'', ''HostName''],
      rows = [[Text ''chrome.exe'', Text ''10.0.0.2'', Text ''B'']]\<rparr>"






text \<open>The store and the variables after the steps on the scenario's table alone.\<close>

definition scenario_vars :: table_vars where
  "scenario_vars =
     \<lparr>ref_df = 0, ref_hosts_with_ninja = 2, ref_merged = 3,
      ref_df_no_ninja = 5, ref_df_no_ninja_unique = 6\<rparr>"

definition scenario_store :: store where
  "scenario_store =
     [scenario_table,
      \<lparr>columns = [''IP'', ''HostName''], rows = [[Text ''10.0.0.1'', Text ''A'']]\<rparr>,
      \<lparr>columns = [''IP'', ''HostName''], rows = [[Text ''10.0.0.1'', Text ''A'']]\<rparr>,
      \<lparr>columns = [''Name'', ''IP'', ''HostName'', ''_merge''],
       rows = [[Text ''NinjaRMMAgent.exe'', Text ''10.0.0.1'', Text ''A'', Text ''both''],
               [Text ''chrome.exe'', Text ''10.0.0.1'', Text ''A'', Text ''both''],
               [Text ''chrome.exe'', Text ''10.0.0.2'', Text ''B'', Text ''left_only'']]\<rparr>,
      \<lparr>columns = [''Name'', ''IP'', ''HostName'', ''_merge''],
       rows = [[Text ''chrome.exe'', Text ''10.0.0.2'', Text ''B'', Text ''left_only'']]\<rparr>,
      \<lparr>columns = [''Name'', ''IP'', ''HostName''],
       rows = [[Text ''chrome.exe'', Text ''10.0.0.2'', Text ''B'']]\<rparr>,
      \<lparr>columns = [''Name'', ''IP'', ''HostName''],
       rows = [[Text ''chrome.exe'', Text ''10.0.0.2'', Text ''B'']]\<rparr>]"

section \<open>The steps of the pipeline, one by one\<close>

lemma starts_with_prefix: "starts_with p s = prefix p s"
  by (induction p s rule: starts_with.induct) auto

lemma contains_text_sublist: "contains_text p s = sublist p s"
  by (induction s) (auto simp: starts_with_prefix sublist_Cons_right)

lemma mask_rows_map: "mask_rows xs (map p xs) = filter p xs"
  by (induction xs) (auto simp: mask_rows_def)

lemma keep_first_subseq: "subseq (keep_first f seen xs) xs"
  by (induction xs arbitrary: seen) auto

lemma keep_first_keys: "f ` set (keep_first f seen xs) = f ` set xs - set seen"
  by (induction xs arbitrary: seen) auto

lemma keep_first_subset: "set (keep_first f seen xs) \<subseteq> set xs"
  by (induction xs arbitrary: seen) auto

lemma keep_first_distinct: "distinct (map f (keep_first f seen xs))"
proof (induction xs arbitrary: seen)
  case (Cons x xs)
  have "f x \<notin> f ` set (keep_first f (f x # seen) xs)"
    by (simp add: keep_first_keys)
  with Cons show ?case by simp
qed simp

lemma keep_first_mem:
  "r \<in> set (keep_first f seen xs) \<longleftrightarrow> f r \<notin> set seen \<and> find (\<lambda>x. f x = f r) xs = Some r"
proof (induction xs arbitrary: seen)
  case (Cons x xs)
  show ?case
  proof (cases "f x = f r")
    case True
    have "r \<notin> set (keep_first f (f x # seen) xs)"
      using keep_first_keys [of f "f x # seen" xs] True by auto
    with True Cons show ?thesis by auto
  next
    case False
    with Cons show ?thesis by auto
  qed
qed simp

lemma cell_of_snoc:
  "length l = length cols \<Longrightarrow> c \<in> set cols \<Longrightarrow> cell_of (cols @ [m]) (l @ [x]) c = cell_of cols l c"
  by (auto simp: cell_of_def map_of_append split: option.splits dest: map_of_SomeD)

lemma cell_of_snoc_last:
  "length l = length cols \<Longrightarrow> m \<notin> set cols \<Longrightarrow> cell_of (cols @ [m]) (l @ [x]) m = x"
  by (auto simp: cell_of_def map_of_append split: option.splits dest!: map_of_SomeD set_zip_leftD)

lemma drop_cells_same: "m \<notin> set cols \<Longrightarrow> length l = length cols \<Longrightarrow> drop_cells cols m l = l"
  unfolding drop_cells_def
  by (induction cols l rule: list_induct2') auto

lemma drop_cells_snoc:
  "length l = length cols \<Longrightarrow> m \<notin> set cols \<Longrightarrow> drop_cells (cols @ [m]) m (l @ [x]) = l"
  using drop_cells_same [of m cols l] by (simp add: drop_cells_def)

lemma keep_first_fixed_set:
  assumes "\<forall>x \<in> set xs. f x = x"
  shows "set (keep_first f [] xs) = set xs"
proof -
  have sub: "set (keep_first f [] xs) \<subseteq> set xs" by (rule keep_first_subset)
  have "f ` set (keep_first f [] xs) = f ` set xs" by (simp add: keep_first_keys)
  moreover have "f ` set (keep_first f [] xs) = set (keep_first f [] xs)"
    using assms sub by force
  moreover have "f ` set xs = set xs" using assms by force
  ultimately show ?thesis by simp
qed

lemma row_key_HOST: "row_key cols HOST r = [cell_of cols r ''IP'', cell_of cols r ''HostName'']"
  by (simp add: row_key_def HOST_def)

lemma row_key_HOST_fixed: "row_key HOST HOST (row_key cols HOST r) = row_key cols HOST r"
  by (simp add: row_key_HOST) (simp add: cell_of_def HOST_def)

lemma step_mask:
  "''Name'' \<in> set (columns d) \<Longrightarrow>
   bind_err (getitem d ''Name'') g = g (map (\<lambda>r. cell_of (columns d) r ''Name'') (rows d))"
  by (simp add: getitem_def bind_err_def)

lemma str_accessor_name:
  "str_accessor (map (\<lambda>r. cell_of (columns d) r ''Name'') (rows d)) =
     (if name_is_text d then Inr (map (\<lambda>r. cell_of (columns d) r ''Name'') (rows d))
      else Inl (AttributeError ''Can only use .str accessor with string values!''))"
  by (auto simp: str_accessor_def name_is_text_def list_ex_iff)

lemma str_contains_marker:
  "name_is_text d \<Longrightarrow>
   str_contains (map (\<lambda>r. cell_of (columns d) r ''Name'') (rows d)) MARKER = Inr (map (has_marker d) (rows d))"
  by (simp add: str_contains_def str_accessor_name bind_err_def has_marker_def)

lemma str_contains_not_text:
  "\<not> name_is_text d \<Longrightarrow>
   str_contains (map (\<lambda>r. cell_of (columns d) r ''Name'') (rows d)) MARKER
     = Inl (AttributeError ''Can only use .str accessor with string values!'')"
  by (simp add: str_contains_def str_accessor_name bind_err_def)

lemma step_loc:
  "set HOST \<subseteq> set (columns d) \<Longrightarrow>
   loc d (map (has_marker d) (rows d)) HOST = Inr \<lparr>columns = HOST, rows = marked_keys d\<rparr>"
  by (simp add: loc_def mask_rows_map marked_keys_def host_key_def)

lemma step_hosts:
  "drop_duplicates \<lparr>columns = HOST, rows = ks\<rparr> None =
     Inr \<lparr>columns = HOST, rows = keep_first (row_key HOST HOST) [] ks\<rparr>"
  by (simp add: drop_duplicates_def)

lemma ninja_frame_set: "set (rows (ninja_frame d)) = set (marked_keys d)"
  unfolding ninja_frame_def
  by (simp, rule keep_first_fixed_set) (auto simp: marked_keys_def host_key_def row_key_HOST_fixed)

lemma merge_row_match:
  "filter (\<lambda>k. row_key (columns (ninja_frame d)) HOST k = row_key (columns d) HOST l) (rows (ninja_frame d)) = []
     \<longleftrightarrow> host_key d l \<notin> set (marked_keys d)"
proof -
  have fixed: "\<forall>k \<in> set (rows (ninja_frame d)). row_key HOST HOST k = k"
    by (auto simp: ninja_frame_set marked_keys_def host_key_def row_key_HOST_fixed)
  have "filter (\<lambda>k. row_key HOST HOST k = host_key d l) (rows (ninja_frame d)) = []
      \<longleftrightarrow> host_key d l \<notin> set (rows (ninja_frame d))"
    using fixed by (auto simp: filter_empty_conv)
  then show ?thesis by (simp add: ninja_frame_set) (simp add: ninja_frame_def host_key_def)
qed

lemma keep_unmatched:
  assumes "length l = length (columns d)" "''_merge'' \<notin> set (columns d)"
  shows "map (drop_cells (columns d @ [''_merge'']) ''_merge'')
           (filter (\<lambda>r. cell_of (columns d @ [''_merge'']) r ''_merge'' = Text ''left_only'')
              (merge_row d (ninja_frame d) HOST l))
         = (if host_key d l \<in> set (marked_keys d) then [] else [l])"
  using assms merge_row_match [of d l]
  by (simp add: merge_row_def Let_def cell_of_snoc_last drop_cells_snoc)

lemma keep_unmatched_all:
  assumes "list_all (\<lambda>r. length r = length (columns d)) ls" "''_merge'' \<notin> set (columns d)"
  shows "map (drop_cells (columns d @ [''_merge'']) ''_merge'')
           (filter (\<lambda>r. cell_of (columns d @ [''_merge'']) r ''_merge'' = Text ''left_only'')
              (concat (map (merge_row d (ninja_frame d) HOST) ls)))
         = filter (\<lambda>l. host_key d l \<notin> set (marked_keys d)) ls"
  using assms
proof (induction ls)
  case (Cons l ls)
  then show ?case using keep_unmatched [of l d] by simp
qed simp

lemma indicator_free:
  "\<not> list_ex (\<lambda>c. c \<in> set cols) indicator_names \<Longrightarrow> ''_merge'' \<notin> set cols"
  by (simp add: indicator_names_def)

lemma step_merge:
  assumes "required_ok d"
  shows "merge_left_indicator d (ninja_frame d) HOST =
           Inr \<lparr>columns = columns d @ [''_merge''],
                rows = concat (map (merge_row d (ninja_frame d) HOST) (rows d))\<rparr>"
proof -
  have "\<not> list_ex (\<lambda>c. c \<in> set HOST) indicator_names"
    by (simp add: indicator_names_def HOST_def)
  with assms show ?thesis
    by (simp add: merge_left_indicator_def required_ok_def ninja_frame_def list_ex_iff)
qed

lemma step_select:
  assumes "wf_frame d" "required_ok d"
  shows "drop_columns
           (getitem_mask \<lparr>columns = columns d @ [''_merge''], rows = ms\<rparr>
              (eq_scalar (map (\<lambda>r. cell_of (columns d @ [''_merge'']) r ''_merge'') ms) ''left_only''))
           ''_merge''
         = Inr \<lparr>columns = columns d,
                rows = map (drop_cells (columns d @ [''_merge'']) ''_merge'')
                  (filter (\<lambda>r. cell_of (columns d @ [''_merge'']) r ''_merge'' = Text ''left_only'') ms)\<rparr>"
proof -
  have m: "''_merge'' \<notin> set (columns d)"
    using assms(2) by (simp add: required_ok_def indicator_free)
  have e: "eq_scalar (map (\<lambda>r. cell_of (columns d @ [''_merge'']) r ''_merge'') ms) ''left_only''
        = map (\<lambda>r. cell_of (columns d @ [''_merge'']) r ''_merge'' = Text ''left_only'') ms"
    by (simp add: eq_scalar_def)
  have f: "filter (\<lambda>x. x \<noteq> ''_merge'') (columns d) = columns d"
    using m by (auto simp: filter_id_conv)
  show ?thesis
    unfolding e by (simp add: drop_columns_def getitem_mask_def mask_rows_map f)
qed

lemma filter_steps_result:
  assumes "wf_frame d" "required_ok d" "name_is_text d"
  shows "filter_steps d =
     Inr \<lparr>df = d, ninja_mask = map (has_marker d) (rows d), hosts_with_ninja = ninja_frame d,
          merged = \<lparr>columns = columns d @ [''_merge''],
                    rows = concat (map (merge_row d (ninja_frame d) HOST) (rows d))\<rparr>,
          df_no_ninja = \<lparr>columns = columns d, rows = retained d\<rparr>,
          df_no_ninja_unique = \<lparr>columns = columns d, rows = keep_first (host_key d) [] (retained d)\<rparr>\<rparr>"
proof -
  have n: "''Name'' \<in> set (columns d)" and h: "set HOST \<subseteq> set (columns d)"
    and m: "''_merge'' \<notin> set (columns d)"
    using assms(2) by (simp_all add: required_ok_def indicator_free)
  have w: "list_all (\<lambda>r. length r = length (columns d)) (rows d)"
    using assms(1) by (simp add: wf_frame_def)
  have g: "getitem \<lparr>columns = columns d @ [''_merge''], rows = ms\<rparr> ''_merge''
             = Inr (map (\<lambda>r. cell_of (columns d @ [''_merge'']) r ''_merge'') ms)" for ms
    by (simp add: getitem_def)
  have u: "drop_duplicates \<lparr>columns = columns d, rows = retained d\<rparr> (Some HOST)
             = Inr \<lparr>columns = columns d, rows = keep_first (host_key d) [] (retained d)\<rparr>"
    using h by (simp add: drop_duplicates_def host_key_def [abs_def])
  show ?thesis
    unfolding filter_steps_def step_mask [OF n] str_contains_marker [OF assms(3)]
    by (simp add: bind_err_def step_loc [OF h] step_hosts ninja_frame_def [symmetric]
        step_merge [OF assms(2)] g step_select [OF assms(1,2)] keep_unmatched_all [OF w m]
        retained_def [symmetric] u)
qed

lemma filter_steps_required: "filter_steps d = Inr s \<Longrightarrow> required_ok d"
  unfolding filter_steps_def required_ok_def
  by (auto simp: bind_err_def getitem_def loc_def drop_duplicates_def merge_left_indicator_def
      list_ex_iff Let_def split: sum.splits if_splits)

lemma filter_steps_text:
  assumes "filter_steps d = Inr s"
  shows "name_is_text d"
proof (rule ccontr)
  assume n: "\<not> name_is_text d"
  have c: "''Name'' \<in> set (columns d)"
    using filter_steps_required [OF assms] by (simp add: required_ok_def)
  have "filter_steps d = Inl (AttributeError ''Can only use .str accessor with string values!'')"
    unfolding filter_steps_def step_mask [OF c] str_contains_not_text [OF n]
    by (simp add: bind_err_def)
  with assms show False by simp
qed

lemma has_marker_iff:
  "has_marker d r \<longleftrightarrow> (\<exists>t. cell_of (columns d) r ''Name'' = Text t \<and> sublist MARKER t)"
  by (auto simp: has_marker_def cell_contains_def contains_text_sublist split: cell.splits)

lemma marked_keys_ExclusionSet: "set (marked_keys d) = ExclusionSet d"
  by (auto simp: marked_keys_def ExclusionSet_def has_marker_iff host_key_def row_key_HOST)

lemma find_filter_key:
  "find (\<lambda>x. f x = f r) (filter (\<lambda>x. f x \<notin> E) xs) = Some r
     \<longleftrightarrow> f r \<notin> E \<and> find (\<lambda>x. f x = f r) xs = Some r"
  by (induction xs) auto

lemma steps_pipeline:
  "filter_pipeline d = Inr out \<longleftrightarrow> (\<exists>s. filter_steps d = Inr s \<and> df_no_ninja_unique s = out)"
  by (cases "filter_steps d") (auto simp: filter_pipeline_def)

lemma pipeline_rows:
  assumes "wf_frame d" "filter_pipeline d = Inr out"
  shows "out = \<lparr>columns = columns d, rows = keep_first (host_key d) [] (retained d)\<rparr>"
proof -
  from assms(2) obtain s where s: "filter_steps d = Inr s" "df_no_ninja_unique s = out"
    by (auto simp: steps_pipeline)
  from s(1) have "required_ok d" by (rule filter_steps_required)
  from filter_steps_result [OF assms(1) this filter_steps_text [OF s(1)]] s show ?thesis by simp
qed

lemma retained_subseq: "subseq (retained d) (rows d)"
  by (simp add: retained_def)

lemma ninja_frame_distinct: "distinct (rows (ninja_frame d))"
proof -
  let ?ks = "keep_first (row_key HOST HOST) [] (marked_keys d)"
  have "\<forall>k \<in> set ?ks. row_key HOST HOST k = k"
    using keep_first_subset [of "row_key HOST HOST" "[]" "marked_keys d"]
    by (auto simp: marked_keys_def host_key_def row_key_HOST_fixed)
  then have "map (row_key HOST HOST) ?ks = ?ks" by (simp add: map_idI)
  with keep_first_distinct [of "row_key HOST HOST" "[]" "marked_keys d"]
  show ?thesis by (simp add: ninja_frame_def)
qed

lemma marked_keys_named:
  "marked_keys (d\<lparr>rows := filter (\<lambda>r. cell_of (columns d) r ''Name'' \<noteq> Missing) (rows d)\<rparr>) = marked_keys d"
proof -
  have "filter (has_marker d) (filter (\<lambda>r. cell_of (columns d) r ''Name'' \<noteq> Missing) (rows d))
      = filter (has_marker d) (rows d)"
  proof -
    have "has_marker d r \<Longrightarrow> cell_of (columns d) r ''Name'' \<noteq> Missing" for r
      by (auto simp: has_marker_iff)
    then show ?thesis by (induction "rows d") (auto intro: filter_cong)
  qed
  then show ?thesis
    by (simp add: marked_keys_def has_marker_def [abs_def] host_key_def [abs_def])
qed

lemma main_reads:
  assumes "snd (ensure_pandas_installed e) = None" "open_choice e = Some p" "p \<noteq> []"
  shows "main e = filter_file e (fst (ensure_pandas_installed e)) p"
  using assms by (cases "ensure_pandas_installed e") (simp add: main_def)

lemma written_table:
  assumes "effect (main e) = Written q t"
  shows "\<exists>p d. open_choice e = Some p \<and> read_csv e p = Inr d \<and> filter_pipeline d = Inr t"
  using assms
  by (auto simp: main_def filter_file_def write_out_def
      split: prod.splits option.splits if_splits sum.splits)

lemma missing_table_wf: "wf_frame missing_table"
  by (simp add: wf_frame_def missing_table_def)

lemma two_browsers_wf: "wf_frame two_browsers"
  by (simp add: wf_frame_def two_browsers_def)

lemma missing_table_steps: "filter_steps missing_table = Inr missing_locals"
  by code_simp

lemma missing_table_pipeline: "filter_pipeline missing_table = Inr missing_output"
  by code_simp

lemma two_browsers_pipeline: "filter_pipeline two_browsers = Inr two_browsers_output"
  by code_simp



lemma store_steps_pure:
  assumes "a < length st" and "store_steps st a = Inr (v, st')"
  shows "\<exists>s t1 t4. filter_steps (st ! a) = Inr s \<and>
           st' = st @ [t1, hosts_with_ninja s, merged s, t4, df_no_ninja s, df_no_ninja_unique s] \<and>
           v = \<lparr>ref_df = a, ref_hosts_with_ninja = length st + 1, ref_merged = length st + 2,
                ref_df_no_ninja = length st + 4, ref_df_no_ninja_unique = length st + 5\<rparr>"
  using assms unfolding store_steps_def filter_steps_def new_table_def bind_err_def
  by (auto simp: nth_append split: sum.splits)

lemma store_steps_returns:
  assumes "a < length st" and "filter_steps (st ! a) = Inr s"
  shows "\<exists>v st'. store_steps st a = Inr (v, st')"
  using assms unfolding store_steps_def filter_steps_def new_table_def bind_err_def
  by (auto simp: nth_append split: sum.splits)





lemma scenario_store_steps: "store_steps [scenario_table] 0 = Inr (scenario_vars, scenario_store)"
  by code_simp





section \<open>The claims\<close>

text \<open>
  C5: on the three-row table of the specification (an agent row and a browser row of host
  (10.0.0.1, A), a browser row of host (10.0.0.2, B)) the pipeline returns the single row
  of host (10.0.0.2, B).
\<close>

theorem scenario_output:
  "filter_pipeline scenario_table =
     Inr \<lparr>columns = [''Name'', ''IP'', ''HostName''],
          rows = [[Text ''chrome.exe'', Text ''10.0.0.2'', Text ''B'']]\<rparr>"
  by code_simp

text \<open>
  C1, as amended: a row belongs to the output exactly when its (IP, HostName) pair is not
  in ExclusionSet and it is the first row of the input with that pair. (As the claim is
  written, every row whose pair is not in ExclusionSet would belong to the output; step 4c
  keeps only the first one of each pair.)
\<close>

theorem output_membership:
  assumes "wf_frame d" and "filter_pipeline d = Inr out"
  shows "r \<in> set (rows out) \<longleftrightarrow>
           host_key d r \<notin> ExclusionSet d \<and> find (\<lambda>x. host_key d x = host_key d r) (rows d) = Some r"
proof -
  have "rows out = keep_first (host_key d) [] (retained d)"
    using pipeline_rows [OF assms] by simp
  then show ?thesis
    by (simp add: keep_first_mem retained_def find_filter_key marked_keys_ExclusionSet)
qed

theorem output_membership_witness:
  "wf_frame missing_table \<and> filter_pipeline missing_table = Inr missing_output \<and>
   ([Text ''b.exe'', Missing, Missing] \<in> set (rows missing_output) \<longleftrightarrow>
      host_key missing_table [Text ''b.exe'', Missing, Missing] \<notin> ExclusionSet missing_table \<and>
      find (\<lambda>x. host_key missing_table x = host_key missing_table [Text ''b.exe'', Missing, Missing])
        (rows missing_table) = Some [Text ''b.exe'', Missing, Missing])"
  using output_membership [OF missing_table_wf missing_table_pipeline]
    missing_table_wf missing_table_pipeline by simp

text \<open>
  The claim C1 as written fails on two rows of one host without the agent: the pair of the
  second row is not in ExclusionSet, and the row is not in the output.
\<close>

theorem later_duplicate_not_in_output:
  "filter_pipeline two_browsers = Inr two_browsers_output \<and>
   [Text ''firefox.exe'', Text ''10.0.0.2'', Text ''B''] \<in> set (rows two_browsers) \<and>
   host_key two_browsers [Text ''firefox.exe'', Text ''10.0.0.2'', Text ''B''] \<notin> ExclusionSet two_browsers \<and>
   [Text ''firefox.exe'', Text ''10.0.0.2'', Text ''B''] \<notin> set (rows two_browsers_output)"
proof -
  have "marked_keys two_browsers = []" by code_simp
  then have "ExclusionSet two_browsers = {}"
    using marked_keys_ExclusionSet [of two_browsers] by simp
  then show ?thesis
    by (simp add: two_browsers_pipeline) (simp add: two_browsers_def two_browsers_output_def)
qed

text \<open>
  C2: the rows of \<open>hosts_with_ninja\<close> are, without repetition, the (IP, HostName) pairs of
  the rows whose Name is present and contains the marker, character for character. A row
  with a missing Name is never selected by the mask, and deleting all such rows from the
  table leaves \<open>hosts_with_ninja\<close> as it is.
\<close>

theorem exclusion_set_computed:
  assumes "wf_frame d" and "filter_steps d = Inr s"
  shows "set (rows (hosts_with_ninja s)) = ExclusionSet d \<and>
         distinct (rows (hosts_with_ninja s)) \<and>
         ninja_mask s = map (has_marker d) (rows d) \<and>
         (\<forall>r. cell_of (columns d) r ''Name'' = Missing \<longrightarrow> \<not> has_marker d r) \<and>
         map_sum id hosts_with_ninja
           (filter_steps (d\<lparr>rows := filter (\<lambda>r. cell_of (columns d) r ''Name'' \<noteq> Missing) (rows d)\<rparr>))
           = Inr (hosts_with_ninja s)"
proof -
  let ?d = "d\<lparr>rows := filter (\<lambda>r. cell_of (columns d) r ''Name'' \<noteq> Missing) (rows d)\<rparr>"
  have req: "required_ok d" using assms(2) by (rule filter_steps_required)
  have nt: "name_is_text d" using assms(2) by (rule filter_steps_text)
  have s: "hosts_with_ninja s = ninja_frame d" "ninja_mask s = map (has_marker d) (rows d)"
    using filter_steps_result [OF assms(1) req nt] assms(2) by auto
  have "wf_frame ?d" using assms(1) by (simp add: wf_frame_def list_all_iff)
  moreover have "required_ok ?d" using req by (simp add: required_ok_def)
  moreover have "name_is_text ?d"
    using nt by (auto simp: name_is_text_def list_ex_iff filter_empty_conv)
  ultimately have "map_sum id hosts_with_ninja (filter_steps ?d) = Inr (ninja_frame ?d)"
    by (simp add: filter_steps_result)
  moreover have "ninja_frame ?d = ninja_frame d"
    by (simp only: ninja_frame_def marked_keys_named)
  ultimately show ?thesis
    by (simp add: s ninja_frame_set marked_keys_ExclusionSet ninja_frame_distinct has_marker_iff)
qed

theorem exclusion_set_computed_witness:
  "wf_frame missing_table \<and> filter_steps missing_table = Inr missing_locals \<and>
   ExclusionSet missing_table = {[Missing, Text ''A'']} \<and>
   ninja_mask missing_locals = [True, False, False, False, False, False] \<and>
   distinct (rows (hosts_with_ninja missing_locals))"
  using exclusion_set_computed [OF missing_table_wf missing_table_steps]
    missing_table_wf missing_table_steps
  by (simp add: missing_locals_def)

text \<open>
  C3: the output has at most one row for each (IP, HostName) pair, and exactly one for
  each pair among the retained rows; it is a subsequence of the retained rows, which are a
  subsequence of the input; each output row is the first of the retained rows, and the
  first of the input rows, with its pair.
\<close>

theorem one_row_per_host_first_kept:
  assumes "wf_frame d" and "filter_steps d = Inr s"
  shows "distinct (map (host_key d) (rows (df_no_ninja_unique s))) \<and>
         host_key d ` set (rows (df_no_ninja_unique s)) = host_key d ` set (rows (df_no_ninja s)) \<and>
         subseq (rows (df_no_ninja_unique s)) (rows (df_no_ninja s)) \<and>
         subseq (rows (df_no_ninja s)) (rows d) \<and>
         (\<forall>r \<in> set (rows (df_no_ninja_unique s)).
            find (\<lambda>x. host_key d x = host_key d r) (rows (df_no_ninja s)) = Some r \<and>
            find (\<lambda>x. host_key d x = host_key d r) (rows d) = Some r)"
proof -
  have req: "required_ok d" using assms(2) by (rule filter_steps_required)
  have s: "rows (df_no_ninja s) = retained d"
    "rows (df_no_ninja_unique s) = keep_first (host_key d) [] (retained d)"
    using filter_steps_result [OF assms(1) req filter_steps_text [OF assms(2)]] assms(2) by auto
  have "find (\<lambda>x. host_key d x = host_key d r) (rows d) = Some r"
    if "find (\<lambda>x. host_key d x = host_key d r) (retained d) = Some r" for r
    using that by (simp add: retained_def find_filter_key)
  then show ?thesis
    by (simp add: s keep_first_distinct keep_first_keys keep_first_subseq retained_subseq
        keep_first_mem)
qed

theorem one_row_per_host_first_kept_witness:
  "wf_frame missing_table \<and> filter_steps missing_table = Inr missing_locals \<and>
   distinct (map (host_key missing_table) (rows (df_no_ninja_unique missing_locals))) \<and>
   find (\<lambda>x. host_key missing_table x = host_key missing_table [Text ''a.exe'', Missing, Missing])
     (rows missing_table) = Some [Text ''a.exe'', Missing, Missing]"
  using one_row_per_host_first_kept [OF missing_table_wf missing_table_steps]
    missing_table_wf missing_table_steps
  by (simp add: missing_locals_def)







text \<open>
  C7: when reading the chosen file raises, main prints a line that names the file and
  carries the text of the exception, exits with status 1, and writes no file.
\<close>

theorem read_failure_aborts:
  assumes "snd (ensure_pandas_installed e) = None"
    and "open_choice e = Some p" and "p \<noteq> []"
    and "read_csv e p = Inl x"
  shows "exit_status (main e) = 1 \<and> effect (main e) = NotWritten \<and> uncaught (main e) = None \<and>
         printed (main e) = fst (ensure_pandas_installed e)
            @ [''Error reading CSV from '' @ p @ '':'' @ [newline] @ x]"
  by (simp add: main_reads [OF assms(1-3)] filter_file_def assms(4))

theorem read_failure_aborts_witness:
  "snd (ensure_pandas_installed (run_env (Inl ''bad byte'') None ''bob'')) = None \<and>
   open_choice (run_env (Inl ''bad byte'') None ''bob'') = Some ''in.csv'' \<and>
   read_csv (run_env (Inl ''bad byte'') None ''bob'') ''in.csv'' = Inl ''bad byte'' \<and>
   exit_status (main (run_env (Inl ''bad byte'') None ''bob'')) = 1 \<and>
   effect (main (run_env (Inl ''bad byte'') None ''bob'')) = NotWritten \<and>
   last (printed (main (run_env (Inl ''bad byte'') None ''bob'')))
     = ''Error reading CSV from in.csv:'' @ [newline] @ ''bad byte''"
proof -
  let ?e = "run_env (Inl ''bad byte'') None ''bob''"
  have h: "snd (ensure_pandas_installed ?e) = None" "open_choice ?e = Some ''in.csv''"
    "''in.csv'' \<noteq> []" "read_csv ?e ''in.csv'' = Inl ''bad byte''"
    by (simp_all add: ensure_pandas_installed_def run_env_def)
  show ?thesis
    using read_failure_aborts [OF h] h by simp
qed

text \<open>
  C8: two runs that read the same table and write a file write the same table, whatever
  else differs between them (user, chosen paths): the output is the pipeline's result,
  a function of the table read.
\<close>

theorem same_table_same_output:
  assumes "open_choice e1 = Some p1" and "read_csv e1 p1 = Inr d"
    and "open_choice e2 = Some p2" and "read_csv e2 p2 = Inr d"
    and "effect (main e1) = Written q1 t1" and "effect (main e2) = Written q2 t2"
  shows "t1 = t2 \<and> filter_pipeline d = Inr t1"
proof -
  from written_table [OF assms(5)] assms(1,2) have "filter_pipeline d = Inr t1" by auto
  moreover from written_table [OF assms(6)] assms(3,4) have "filter_pipeline d = Inr t2" by auto
  ultimately show ?thesis by simp
qed

theorem same_table_same_output_witness:
  "effect (main (run_env (Inr scenario_table) None ''bob''))
     = Written (save_path (run_env (Inr scenario_table) None ''bob''))
         \<lparr>columns = [''Name'', ''IP'', ''HostName''],
          rows = [[Text ''chrome.exe'', Text ''10.0.0.2'', Text ''B'']]\<rparr> \<and>
   effect (main (run_env (Inr scenario_table) (Some ''out.csv'') ''alice''))
     = Written ''out.csv''
         \<lparr>columns = [''Name'', ''IP'', ''HostName''],
          rows = [[Text ''chrome.exe'', Text ''10.0.0.2'', Text ''B'']]\<rparr>"
proof -
  let ?e1 = "run_env (Inr scenario_table) None ''bob''"
  let ?e2 = "run_env (Inr scenario_table) (Some ''out.csv'') ''alice''"
  let ?t = "\<lparr>columns = [''Name'', ''IP'', ''HostName''],
          rows = [[Text ''chrome.exe'', Text ''10.0.0.2'', Text ''B'']]\<rparr>"
  have k: "filter_pipeline scenario_table = Inr ?t" by code_simp
  have h1: "open_choice ?e1 = Some ''in.csv''" "read_csv ?e1 ''in.csv'' = Inr scenario_table"
    and h2: "open_choice ?e2 = Some ''in.csv''" "read_csv ?e2 ''in.csv'' = Inr scenario_table"
    by (simp_all add: run_env_def)
  have w1: "effect (main ?e1) = Written (save_path ?e1) ?t"
    by (simp add: main_def ensure_pandas_installed_def filter_file_def write_out_def run_env_def k)
  have w2: "effect (main ?e2) = Written (save_path ?e2) ?t"
    by (simp add: main_def ensure_pandas_installed_def filter_file_def write_out_def run_env_def k)
  have s2: "save_path ?e2 = ''out.csv''" by (simp add: save_path_def run_env_def)
  show ?thesis
    using same_table_same_output [OF h1 h2 w1 w2] w1 w2 s2 by simp
qed

text \<open>
  C9: the steps change no table of the store: after step 4c every table object that
  existed before, the input among them, is as it was, and the variable \<open>df\<close> still
  refers to the input. What the steps add are new table objects, and the one
  \<open>df_no_ninja_unique\<close> refers to is the pipeline's output for the input.
\<close>

theorem input_table_not_mutated:
  assumes "a < length st" and "store_steps st a = Inr (v, st')"
  shows "st' ! a = st ! a \<and> take (length st) st' = st \<and> length st < length st' \<and>
         ref_df v = a \<and>
         length st \<le> ref_df_no_ninja_unique v \<and> ref_df_no_ninja_unique v < length st' \<and>
         filter_pipeline (st ! a) = Inr (st' ! ref_df_no_ninja_unique v)"
proof -
  obtain s t1 t4 where s: "filter_steps (st ! a) = Inr s"
    and st': "st' = st @ [t1, hosts_with_ninja s, merged s, t4, df_no_ninja s, df_no_ninja_unique s]"
    and v: "v = \<lparr>ref_df = a, ref_hosts_with_ninja = length st + 1, ref_merged = length st + 2,
                ref_df_no_ninja = length st + 4, ref_df_no_ninja_unique = length st + 5\<rparr>"
    using store_steps_pure [OF assms] by blast
  have "filter_pipeline (st ! a) = Inr (df_no_ninja_unique s)"
    using s by (simp add: filter_pipeline_def)
  then show ?thesis
    using assms(1) by (simp add: st' v nth_append)
qed

theorem input_table_not_mutated_witness:
  "(0::nat) < length [scenario_table] \<and>
   store_steps [scenario_table] 0 = Inr (scenario_vars, scenario_store) \<and>
   scenario_store ! 0 = scenario_table \<and>
   take 1 scenario_store = [scenario_table] \<and>
   filter_pipeline scenario_table = Inr (scenario_store ! 6)"
proof -
  have a: "(0::nat) < length [scenario_table]" by simp
  show ?thesis
    using input_table_not_mutated [OF a scenario_store_steps] scenario_store_steps
    by (simp add: scenario_vars_def)
qed

text \<open>
  C10: missing IP or HostName cells compare equal to each other, in the anti-join and in
  the deduplication. A row with a missing IP (or HostName) is not in the output when a row
  with the marker has a missing IP (or HostName) too and the same cell in the other key
  column; two output rows that agree in this way are one and the same row; and every
  input row whose pair is not in ExclusionSet, missing cells included, has its
  representative in the output: the first input row with that pair.
\<close>

theorem missing_keys_compare_equal:
  assumes "wf_frame d" and "filter_pipeline d = Inr out"
  shows "(\<forall>r \<in> set (rows d). \<forall>m \<in> set (rows d).
            has_marker d m \<and>
            (cell_of (columns d) r ''IP'' = Missing \<and> cell_of (columns d) m ''IP'' = Missing \<and>
               cell_of (columns d) r ''HostName'' = cell_of (columns d) m ''HostName'' \<or>
             cell_of (columns d) r ''HostName'' = Missing \<and> cell_of (columns d) m ''HostName'' = Missing \<and>
               cell_of (columns d) r ''IP'' = cell_of (columns d) m ''IP'')
            \<longrightarrow> r \<notin> set (rows out)) \<and>
         (\<forall>r1 \<in> set (rows out). \<forall>r2 \<in> set (rows out).
            (cell_of (columns d) r1 ''IP'' = Missing \<and> cell_of (columns d) r2 ''IP'' = Missing \<and>
               cell_of (columns d) r1 ''HostName'' = cell_of (columns d) r2 ''HostName'' \<or>
             cell_of (columns d) r1 ''HostName'' = Missing \<and> cell_of (columns d) r2 ''HostName'' = Missing \<and>
               cell_of (columns d) r1 ''IP'' = cell_of (columns d) r2 ''IP'')
            \<longrightarrow> r1 = r2) \<and>
         (\<forall>r \<in> set (rows d). host_key d r \<notin> ExclusionSet d \<longrightarrow>
            (\<exists>k \<in> set (rows out). host_key d k = host_key d r \<and>
               find (\<lambda>x. host_key d x = host_key d r) (rows d) = Some k))"
proof -
  have out: "rows out = keep_first (host_key d) [] (retained d)"
    using pipeline_rows [OF assms] by simp
  have a: "r \<notin> set (rows out)"
    if "m \<in> set (rows d)" "has_marker d m" "host_key d r = host_key d m" for r m
  proof -
    have "host_key d r \<in> set (marked_keys d)" using that by (auto simp: marked_keys_def)
    then have "r \<notin> set (retained d)" by (simp add: retained_def)
    then show ?thesis using keep_first_subset [of "host_key d" "[]" "retained d"] out by auto
  qed
  have "inj_on (host_key d) (set (rows out))"
    using keep_first_distinct [of "host_key d" "[]" "retained d"] out
    by (simp add: distinct_map)
  then have b: "r1 = r2"
    if "r1 \<in> set (rows out)" "r2 \<in> set (rows out)" "host_key d r1 = host_key d r2" for r1 r2
    using that by (auto dest: inj_onD)
  have c: "\<exists>k \<in> set (rows out). host_key d k = host_key d r \<and>
               find (\<lambda>x. host_key d x = host_key d r) (rows d) = Some k"
    if "r \<in> set (rows d)" "host_key d r \<notin> ExclusionSet d" for r
  proof -
    have "r \<in> set (retained d)" using that by (simp add: retained_def marked_keys_ExclusionSet)
    then have "host_key d r \<in> host_key d ` set (rows out)"
      unfolding out by (simp add: keep_first_keys)
    then obtain k where k: "k \<in> set (rows out)" "host_key d k = host_key d r" by auto
    then have "find (\<lambda>x. host_key d x = host_key d k) (retained d) = Some k"
      unfolding out by (simp add: keep_first_mem)
    then have "find (\<lambda>x. host_key d x = host_key d k) (rows d) = Some k"
      by (simp add: retained_def find_filter_key)
    with k show ?thesis by auto
  qed
  show ?thesis
  proof (intro conjI ballI impI)
    fix r m assume "r \<in> set (rows d)" "m \<in> set (rows d)"
      and h: "has_marker d m \<and>
            (cell_of (columns d) r ''IP'' = Missing \<and> cell_of (columns d) m ''IP'' = Missing \<and>
               cell_of (columns d) r ''HostName'' = cell_of (columns d) m ''HostName'' \<or>
             cell_of (columns d) r ''HostName'' = Missing \<and> cell_of (columns d) m ''HostName'' = Missing \<and>
               cell_of (columns d) r ''IP'' = cell_of (columns d) m ''IP'')"
    then have "host_key d r = host_key d m" by (auto simp: host_key_def row_key_HOST)
    with a [of m r] \<open>m \<in> set (rows d)\<close> h show "r \<notin> set (rows out)" by simp
  next
    fix r1 r2 assume "r1 \<in> set (rows out)" "r2 \<in> set (rows out)"
      and h: "cell_of (columns d) r1 ''IP'' = Missing \<and> cell_of (columns d) r2 ''IP'' = Missing \<and>
               cell_of (columns d) r1 ''HostName'' = cell_of (columns d) r2 ''HostName'' \<or>
             cell_of (columns d) r1 ''HostName'' = Missing \<and> cell_of (columns d) r2 ''HostName'' = Missing \<and>
               cell_of (columns d) r1 ''IP'' = cell_of (columns d) r2 ''IP''"
    then have "host_key d r1 = host_key d r2" by (auto simp: host_key_def row_key_HOST)
    with b \<open>r1 \<in> set (rows out)\<close> \<open>r2 \<in> set (rows out)\<close> show "r1 = r2" by simp
  next
    fix r assume "r \<in> set (rows d)" "host_key d r \<notin> ExclusionSet d"
    then show "\<exists>k \<in> set (rows out). host_key d k = host_key d r \<and>
               find (\<lambda>x. host_key d x = host_key d r) (rows d) = Some k"
      by (rule c)
  qed
qed

theorem missing_keys_compare_equal_witness:
  "wf_frame missing_table \<and> filter_pipeline missing_table = Inr missing_output \<and>
   [Missing, Missing, Text ''A''] \<notin> set (rows missing_output) \<and>
   [Text ''a.exe'', Missing, Missing] \<in> set (rows missing_output) \<and>
   [Text ''b.exe'', Missing, Missing] \<notin> set (rows missing_output)"
proof -
  note t = missing_keys_compare_equal [OF missing_table_wf missing_table_pipeline]
  let ?m = "[Text ''NinjaRMMAgent'', Missing, Text ''A'']"
  let ?r = "[Missing, Missing, Text ''A'']"
  let ?a = "[Text ''a.exe'', Missing, Missing]"
  let ?b = "[Text ''b.exe'', Missing, Missing]"
  have mem: "?m \<in> set (rows missing_table)" "?r \<in> set (rows missing_table)"
    by (simp_all add: missing_table_def)
  have hm: "has_marker missing_table ?m" by code_simp
  have c: "cell_of (columns missing_table) ?r ''IP'' = Missing"
    "cell_of (columns missing_table) ?m ''IP'' = Missing"
    "cell_of (columns missing_table) ?r ''HostName'' = cell_of (columns missing_table) ?m ''HostName''"
    by (simp_all add: cell_of_def missing_table_def)
  have p1: "?r \<notin> set (rows missing_output)"
    using conjunct1 [OF t] mem hm c by blast
  have a: "?a \<in> set (rows missing_output)" by (simp add: missing_output_def)
  have k: "cell_of (columns missing_table) ?a ''IP'' = Missing"
    "cell_of (columns missing_table) ?b ''IP'' = Missing"
    "cell_of (columns missing_table) ?a ''HostName'' = cell_of (columns missing_table) ?b ''HostName''"
    by (simp_all add: cell_of_def missing_table_def)
  have ne: "?a \<noteq> ?b" by simp
  have p2: "?b \<notin> set (rows missing_output)"
    using conjunct1 [OF conjunct2 [OF t]] a k ne by blast
  show ?thesis using missing_table_wf missing_table_pipeline p1 a p2 by simp
qed

end
